theory Spec2Isabelle
  imports Main "HOL-Library.Sublist"
begin

section \<open>Python string operations used by \<open>app.py\<close>\<close>

text \<open>
  A Python \<open>str\<close> is modelled as a \<open>string\<close> whose characters are the code points
  below 256. The operations below are the ones \<open>read_standards_file\<close> and
  \<open>analyze_compliance\<close> call: \<open>str.strip\<close>, \<open>str.lower\<close>, \<open>str.startswith\<close>,
  \<open>str.endswith\<close>, the substring test \<open>in\<close> and slicing.
\<close>

definition isspace :: "char \<Rightarrow> bool" where
  \<comment> \<open>\<open>str.isspace\<close> on one character: U+0009..U+000D, U+001C..U+0020, U+0085, U+00A0.\<close>
  "isspace c =
     (let n = (of_char c :: nat)
      in (9 \<le> n \<and> n \<le> 13) \<or> (28 \<le> n \<and> n \<le> 32) \<or> n = 133 \<or> n = 160)"

definition lstrip :: "string \<Rightarrow> string" where
  "lstrip s = dropWhile isspace s"

definition rstrip :: "string \<Rightarrow> string" where
  "rstrip s = rev (dropWhile isspace (rev s))"

definition strip :: "string \<Rightarrow> string" where
  \<comment> \<open>\<open>s.strip()\<close>\<close>
  "strip s = rstrip (lstrip s)"

definition char_lower :: "char \<Rightarrow> char" where
  \<comment> \<open>\<open>str.lower\<close> on one character: A..Z and the upper-case letters U+00C0..U+00DE
      (U+00D7, the multiplication sign, apart) move up by 32.\<close>
  "char_lower c =
     (let n = (of_char c :: nat)
      in if (65 \<le> n \<and> n \<le> 90) \<or> (192 \<le> n \<and> n \<le> 222 \<and> n \<noteq> 215)
         then char_of (n + 32) else c)"

definition lower :: "string \<Rightarrow> string" where
  \<comment> \<open>\<open>s.lower()\<close>\<close>
  "lower s = map char_lower s"

definition startswith :: "string \<Rightarrow> string \<Rightarrow> bool" where
  \<comment> \<open>\<open>s.startswith(p)\<close>\<close>
  "startswith p s = prefix p s"

definition endswith :: "string \<Rightarrow> string \<Rightarrow> bool" where
  \<comment> \<open>\<open>s.endswith(p)\<close>\<close>
  "endswith p s = suffix p s"

definition str_in :: "string \<Rightarrow> string \<Rightarrow> bool" where
  \<comment> \<open>\<open>p in s\<close>\<close>
  "str_in p s = sublist p s"

section \<open>\<open>read_standards_file\<close>\<close>

subsection \<open>Column resolution (lines 41--53)\<close>

fun col_rule :: "string \<Rightarrow> string option" where
  \<comment> \<open>The body of the loop over \<open>df.columns\<close>: the canonical name the \<open>if\<close>/\<open>elif\<close>
      chain assigns to \<open>col\<close>, or \<open>None\<close> when no branch is taken.\<close>
  "col_rule col =
     (let col_lower = lower col
      in if str_in ''id'' col_lower \<or> str_in ''standard'' col_lower then Some ''ID''
         else if str_in ''category'' col_lower \<or> str_in ''type'' col_lower then Some ''Category''
         else if str_in ''requirement'' col_lower \<or> str_in ''standard'' col_lower
              then Some ''Requirement''
         else if str_in ''description'' col_lower \<or> str_in ''detail'' col_lower
              then Some ''Description''
         else None)"

fun col_mapping_loop :: "string list \<Rightarrow> (string \<rightharpoonup> string) \<Rightarrow> (string \<rightharpoonup> string)" where
  \<comment> \<open>\<open>for col in df.columns: ... col_mapping[col] = ...\<close>, on the dictionary built so far.\<close>
  "col_mapping_loop [] m = m"
| "col_mapping_loop (col # cols) m =
     col_mapping_loop cols (case col_rule col of None \<Rightarrow> m | Some t \<Rightarrow> m(col \<mapsto> t))"

definition col_mapping :: "string list \<Rightarrow> (string \<rightharpoonup> string)" where
  "col_mapping cols = col_mapping_loop cols Map.empty"

definition resolve :: "string \<Rightarrow> string option" where
  \<comment> \<open>What a header of the uploaded table resolves to: line 38 strips it, the loop
      tests the stripped header.\<close>
  "resolve h = col_rule (strip h)"

subsection \<open>Tables\<close>

text \<open>
  A cell of a table, as \<open>pd.read_csv\<close> and \<open>pd.read_excel\<close> produce it: a text is a \<open>str\<close>,
  a blank cell is the float \<open>nan\<close>, a number is a number. A cell of any other type (a float
  that is not \<open>nan\<close>, a \<open>bool\<close>, a timestamp) is given by the two things the program can
  observe of it: its text \<open>str(x)\<close> and its truth value \<open>bool(x)\<close>.
\<close>

datatype cell =
    Str string
  | NaN
  | Num int
  | Other string bool

text \<open>
  A pandas \<open>DataFrame\<close>: the number of rows (the length of its index) and the columns in
  order, each a label with its cells. Labels may repeat.
\<close>

record frame =
  nrows :: nat
  columns :: "(string \<times> cell list) list"

definition labels :: "frame \<Rightarrow> string list" where
  \<comment> \<open>\<open>df.columns\<close>\<close>
  "labels df = map fst (columns df)"

definition strip_columns :: "frame \<Rightarrow> frame" where
  \<comment> \<open>\<open>df.columns = df.columns.str.strip()\<close>\<close>
  "strip_columns df = df\<lparr>columns := map (\<lambda>(c, xs). (strip c, xs)) (columns df)\<rparr>"

definition rename :: "(string \<rightharpoonup> string) \<Rightarrow> frame \<Rightarrow> frame" where
  \<comment> \<open>\<open>df.rename(columns=m)\<close>: a label that is a key of \<open>m\<close> is replaced, any other kept.\<close>
  "rename m df =
     df\<lparr>columns := map (\<lambda>(c, xs). (case m c of None \<Rightarrow> c | Some t \<Rightarrow> t, xs)) (columns df)\<rparr>"

definition ensure_description :: "frame \<Rightarrow> frame" where
  \<comment> \<open>\<open>if 'Description' not in df.columns: df['Description'] = ''\<close>\<close>
  "ensure_description df =
     (if ''Description'' \<notin> set (labels df)
      then df\<lparr>columns := columns df @ [(''Description'', replicate (nrows df) (Str ''''))]\<rparr>
      else df)"

datatype error =
    UnsupportedFormatError
      \<comment> \<open>the \<open>else\<close> branch of lines 33--35: the message "Unsupported file format. Please
          upload CSV or Excel file." is reported and \<open>None\<close> returned\<close>
  | ParseError string
      \<comment> \<open>an exception of \<open>pd.read_csv\<close> or \<open>pd.read_excel\<close>, which nothing catches\<close>
  | SchemaError "string list"
      \<comment> \<open>the \<open>KeyError\<close> of the selection on line 61, with the labels not found\<close>

definition select :: "string list \<Rightarrow> frame \<Rightarrow> error + frame" where
  \<comment> \<open>\<open>df[keys]\<close> with a list of labels: every column bearing a requested label, label by
      label in the order requested; a \<open>KeyError\<close> when a label is borne by no column.\<close>
  "select keys df =
     (let missing = filter (\<lambda>k. k \<notin> set (labels df)) keys
      in if missing \<noteq> [] then Inl (SchemaError missing)
         else Inr (df\<lparr>columns := concat (map (\<lambda>k. filter (\<lambda>(c, xs). c = k) (columns df)) keys)\<rparr>))"

definition mapped :: "frame \<Rightarrow> frame" where
  \<comment> \<open>Lines 38--55: the table after its headers are stripped and renamed.\<close>
  "mapped df = (let df1 = strip_columns df in rename (col_mapping (labels df1)) df1)"

definition canonical :: "string list" where
  "canonical = [''ID'', ''Category'', ''Requirement'', ''Description'']"

definition normalize_table :: "frame \<Rightarrow> error + frame" where
  \<comment> \<open>Lines 37--61, on the table that was read.\<close>
  "normalize_table df = select canonical (ensure_description (mapped df))"

record 'b upload =
  name :: string
  payload :: 'b

definition read_table ::
  "('b \<Rightarrow> string + frame) \<Rightarrow> ('b \<Rightarrow> string + frame) \<Rightarrow> 'b upload \<Rightarrow> error + frame" where
  \<comment> \<open>Lines 29--35. \<open>read_csv\<close> and \<open>read_excel\<close> stand for \<open>pd.read_csv\<close> and
      \<open>pd.read_excel\<close>: the table read, or the text of the exception raised.\<close>
  "read_table read_csv read_excel file =
     (if endswith ''.csv'' (name file) then
        (case read_csv (payload file) of Inl e \<Rightarrow> Inl (ParseError e) | Inr df \<Rightarrow> Inr df)
      else if endswith ''.xlsx'' (name file) \<or> endswith ''.xls'' (name file) then
        (case read_excel (payload file) of Inl e \<Rightarrow> Inl (ParseError e) | Inr df \<Rightarrow> Inr df)
      else Inl UnsupportedFormatError)"

definition read_standards_file ::
  "('b \<Rightarrow> string + frame) \<Rightarrow> ('b \<Rightarrow> string + frame) \<Rightarrow> 'b upload \<Rightarrow> error + frame" where
  "read_standards_file read_csv read_excel file =
     (case read_table read_csv read_excel file of
        Inl e \<Rightarrow> Inl e
      | Inr df \<Rightarrow> normalize_table df)"

subsection \<open>Notions used in the statements\<close>

definition label_of :: "string \<Rightarrow> string" where
  \<comment> \<open>The label a column with header \<open>h\<close> bears after lines 38--55.\<close>
  "label_of h = (case resolve h of None \<Rightarrow> strip h | Some t \<Rightarrow> t)"

definition cols_named :: "string \<Rightarrow> frame \<Rightarrow> cell list list" where
  \<comment> \<open>The cells of the columns of \<open>df\<close> labelled \<open>l\<close>, in order.\<close>
  "cols_named l df = map snd (filter (\<lambda>(c, xs). c = l) (columns df))"

definition cols_resolved :: "string \<Rightarrow> frame \<Rightarrow> cell list list" where
  \<comment> \<open>The cells of the columns of the uploaded table whose header resolves to \<open>l\<close>.\<close>
  "cols_resolved l df = map snd (filter (\<lambda>(h, xs). resolve h = Some l) (columns df))"

definition matches_id :: "string \<Rightarrow> bool" where
  \<comment> \<open>The test of line 46 on the header \<open>h\<close> of the uploaded table.\<close>
  "matches_id h = (let col_lower = lower (strip h)
                   in str_in ''id'' col_lower \<or> str_in ''standard'' col_lower)"

definition matches_category :: "string \<Rightarrow> bool" where
  \<comment> \<open>The test of line 48, taken alone.\<close>
  "matches_category h = (let col_lower = lower (strip h)
                   in str_in ''category'' col_lower \<or> str_in ''type'' col_lower)"


definition casing_variant :: "string \<Rightarrow> string \<Rightarrow> bool" where
  \<comment> \<open>\<open>h'\<close> is \<open>h\<close> with the case of some letters changed.\<close>
  "casing_variant h' h = list_all2 (\<lambda>a b. char_lower a = char_lower b) h' h"

section \<open>\<open>analyze_compliance\<close>\<close>

subsection \<open>The standards block of the prompt (lines 66--71)\<close>

text \<open>
  A row that \<open>standards_df.iterrows()\<close> yields, with the four cells the loop reads by label.
  The cells are those of the table: nothing between the reader and the loop converts them.
\<close>

record row =
  ID :: cell
  Category :: cell
  Requirement :: cell
  Description :: cell

definition NL :: string where
  \<comment> \<open>The line feed that \<open>\n\<close> denotes in the source's string literals.\<close>
  "NL = [CHR 0x0A]"

fun show_nat :: "nat \<Rightarrow> string" where
  \<comment> \<open>\<open>'%d' % n\<close>\<close>
  "show_nat n = (if n < 10 then [char_of (48 + n)] else show_nat (n div 10) @ [char_of (48 + n mod 10)])"

definition show_int :: "int \<Rightarrow> string" where
  "show_int i = (if i < 0 then CHR ''-'' # show_nat (nat (- i)) else show_nat (nat i))"

fun cell_str :: "cell \<Rightarrow> string" where
  \<comment> \<open>What a replacement field \<open>{x}\<close> of an f-string puts for the cell: \<open>format(x, '')\<close>.\<close>
  "cell_str (Str s) = s"
| "cell_str NaN = ''nan''"
| "cell_str (Num i) = show_int i"
| "cell_str (Other s b) = s"

fun cell_bool :: "cell \<Rightarrow> bool" where
  \<comment> \<open>The truth value that \<open>if x:\<close> tests: a \<open>str\<close> is true when it is not empty, a number
      when it is not zero, and \<open>nan\<close> is not zero.\<close>
  "cell_bool (Str s) = (s \<noteq> [])"
| "cell_bool NaN = True"
| "cell_bool (Num i) = (i \<noteq> 0)"
| "cell_bool (Other s b) = b"

fun standards_loop :: "row list \<Rightarrow> string \<Rightarrow> string" where
  \<comment> \<open>\<open>for _, row in standards_df.iterrows(): standards_text += ...\<close>, on the text built
      so far. \<open>if row['Description']:\<close> tests the truth value of the cell.\<close>
  "standards_loop [] standards_text = standards_text"
| "standards_loop (r # rows) standards_text =
     (let t1 = standards_text @ NL @ cell_str (ID r) @ '' - '' @ cell_str (Category r) @ '': ''
                 @ cell_str (Requirement r) @ NL;
          t2 = (if cell_bool (Description r)
                then t1 @ ''Description: '' @ cell_str (Description r) @ NL else t1)
      in standards_loop rows t2)"

definition standards_text :: "row list \<Rightarrow> string" where
  "standards_text rows = standards_loop rows []"

subsection \<open>Cleaning the reply (lines 108--116)\<close>

definition clean_response :: "string \<Rightarrow> string" where
  "clean_response response_text =
     (let t1 = strip response_text;
          t2 = (if startswith ''```json'' t1 then drop 7 t1 else t1);
          t3 = (if startswith ''```'' t2 then drop 3 t2 else t2);
          t4 = (if endswith ''```'' t3 then take (length t3 - 3) t3 else t3)
      in strip t4)"

definition parse_response :: "(string \<Rightarrow> string + 'j) \<Rightarrow> string \<Rightarrow> string + 'j" where
  \<comment> \<open>Lines 108--119 under the handler of lines 121--123. \<open>loads\<close> stands for \<open>json.loads\<close>:
      the value decoded, or the text \<open>str(e)\<close> of the exception raised. On an exception the
      message is reported with \<open>st.error\<close> and \<open>None\<close> is returned: the result \<open>Inl\<close> carries
      the message reported.\<close>
  "parse_response loads response_text =
     (case loads (clean_response response_text) of
        Inl e \<Rightarrow> Inl (''Error during analysis: '' @ e)
      | Inr findings \<Rightarrow> Inr findings)"

definition fenced :: "string \<Rightarrow> string" where
  \<comment> \<open>The reply that wraps \<open>j\<close> in one pair of fence markers.\<close>
  "fenced j = ''```json'' @ NL @ j @ NL @ ''```''"

subsection \<open>The prompt and the call (lines 73--106)\<close>

definition prompt_head :: string where
  \<open>prompt_head =
     ''You are a compliance analyst. Review the following application documentation against the provided standards and identify any deficiencies.''
     @ NL @ NL @ ''APPLICATION DOCUMENTATION:'' @ NL\<close>

definition prompt_middle :: string where
  \<open>prompt_middle = NL @ NL @ ''STANDARDS TO CHECK:'' @ NL\<close>

definition prompt_tail :: string where
  \<open>prompt_tail =
     NL @ NL
     @ ''For each standard, determine if the application documentation provides sufficient evidence of compliance. ''
     @ NL @ NL
     @ ''Respond ONLY with a JSON array of findings in this exact format, with no markdown backticks or preamble:''
     @ NL @ ''['' @ NL @ ''  {'' @ NL
     @ ''    "standardId": "ID of the standard",'' @ NL
     @ ''    "category": "Category name",'' @ NL
     @ ''    "requirement": "The requirement text",'' @ NL
     @ ''    "status": "Deficient" or "Compliant" or "Partial",'' @ NL
     @ ''    "finding": "Detailed description of the deficiency or compliance status",'' @ NL
     @ ''    "recommendation": "Specific recommendation to address the deficiency"'' @ NL
     @ ''  }'' @ NL @ '']''\<close>

definition build_prompt :: "string \<Rightarrow> string \<Rightarrow> string" where
  \<comment> \<open>The f-string of lines 73--93.\<close>
  "build_prompt app_content text = prompt_head @ app_content @ prompt_middle @ text @ prompt_tail"

definition analyze_compliance ::
  "(string \<Rightarrow> string \<Rightarrow> string + string) \<Rightarrow> (string \<Rightarrow> string + 'j)
     \<Rightarrow> string \<Rightarrow> row list \<Rightarrow> string \<Rightarrow> string + 'j" where
  \<comment> \<open>\<open>create api_key prompt\<close> stands for lines 96--106, the client built from the key, the
      one request and the text of the first block of the answer: that text, or the text
      \<open>str(e)\<close> of the exception raised on the way. Every exception of the \<open>try\<close> block ends
      in the same handler.\<close>
  "analyze_compliance create loads app_content standards api_key =
     (let prompt = build_prompt app_content (standards_text standards)
      in case create api_key prompt of
           Inl e \<Rightarrow> Inl (''Error during analysis: '' @ e)
         | Inr response_text \<Rightarrow> parse_response loads response_text)"

subsection \<open>A model of \<open>json.loads\<close>\<close>

text \<open>
  \<open>json.loads\<close> is the standard library's. The theorems about \<open>parse_response\<close> hold for
  any decoder \<open>loads\<close>; the decoder below is what concrete replies are evaluated with. It
  follows \<open>json.decoder\<close> and \<open>json.scanner\<close> on the texts it models and answers \<open>Unmodelled\<close>
  on the others: a \<open>\u\<close> escape, an invalid escape or a control character inside a string,
  a comma before a closing bracket (whose error message differs between versions of the
  library) and a number of more than 4300 characters (whose conversion may be refused). A
  float is kept as the text that denotes it.
\<close>

datatype json =
    JNull | JBool bool | JInt int | JFloat string | JString string
  | JArray "json list" | JObject "(string \<times> json) list"

datatype 'a scan =
    Scanned 'a nat \<comment> \<open>the value and the index after it\<close>
  | Raise string nat \<comment> \<open>\<open>JSONDecodeError(msg, s, pos)\<close>\<close>
  | Unmodelled

definition json_ws :: "char \<Rightarrow> bool" where
  \<comment> \<open>\<open>WHITESPACE_STR = ' \t\n\r'\<close>\<close>
  "json_ws c = (c = CHR '' '' \<or> c = CHR 0x09 \<or> c = CHR 0x0A \<or> c = CHR 0x0D)"

definition skip_ws :: "string \<Rightarrow> nat \<Rightarrow> nat" where
  \<comment> \<open>\<open>WHITESPACE.match(s, idx).end()\<close>\<close>
  "skip_ws s idx = min (length s) idx + length (takeWhile json_ws (drop idx s))"

definition char_at :: "string \<Rightarrow> nat \<Rightarrow> char option" where
  \<comment> \<open>\<open>s[idx:idx + 1]\<close>, \<open>None\<close> for the empty slice\<close>
  "char_at s idx = (if idx < length s then Some (s ! idx) else None)"

definition slice :: "string \<Rightarrow> nat \<Rightarrow> nat \<Rightarrow> string" where
  \<comment> \<open>\<open>s[i:j]\<close>\<close>
  "slice s i j = take (j - i) (drop i s)"

definition is_digit :: "char \<Rightarrow> bool" where
  "is_digit c = (let n = (of_char c :: nat) in 48 \<le> n \<and> n \<le> 57)"

definition digits_at :: "string \<Rightarrow> nat \<Rightarrow> string" where
  "digits_at s idx = takeWhile is_digit (drop idx s)"

definition int_of_digits :: "string \<Rightarrow> int" where
  "int_of_digits ds = foldl (\<lambda>n c. 10 * n + (int (of_char c) - 48)) 0 ds"

definition match_number :: "string \<Rightarrow> nat \<Rightarrow> (json \<times> nat) option" where
  \<comment> \<open>\<open>NUMBER_RE.match(s, idx)\<close> with
      \<open>NUMBER_RE = (-?(?:0|[1-9]\d*))(\.\d+)?([eE][-+]?\d+)?\<close>, and the conversion that follows
      it: an integer when there is neither fraction nor exponent.\<close>
  "match_number s idx =
     (let i0 = (if char_at s idx = Some (CHR ''-'') then idx + 1 else idx);
          ds = digits_at s i0;
          i1 = (if ds = [] then i0 else if hd ds = CHR ''0'' then i0 + 1 else i0 + length ds)
      in if ds = [] then None
         else
           let fs = (if char_at s i1 = Some (CHR ''.'') then digits_at s (i1 + 1) else []);
               i2 = (if fs = [] then i1 else i1 + 1 + length fs);
               e0 = (if char_at s i2 = Some (CHR ''e'') \<or> char_at s i2 = Some (CHR ''E'')
                     then Some (if char_at s (i2 + 1) = Some (CHR ''-'')
                                   \<or> char_at s (i2 + 1) = Some (CHR ''+'')
                                then i2 + 2 else i2 + 1)
                     else None);
               es = (case e0 of None \<Rightarrow> [] | Some j \<Rightarrow> digits_at s j);
               i3 = (case e0 of None \<Rightarrow> i2 | Some j \<Rightarrow> if es = [] then i2 else j + length es)
           in if fs = [] \<and> es = []
              then Some (JInt ((if i0 = idx then 1 else - 1) * int_of_digits (slice s i0 i1)), i1)
              else Some (JFloat (slice s idx i3), i3))"

definition backslash :: "char \<Rightarrow> char option" where
  \<comment> \<open>The table \<open>BACKSLASH\<close> of the escapes of one character.\<close>
  "backslash c =
     (if c = CHR 0x22 then Some (CHR 0x22)
      else if c = CHR 0x5C then Some (CHR 0x5C)
      else if c = CHR ''/'' then Some (CHR ''/'')
      else if c = CHR ''b'' then Some (CHR 0x08)
      else if c = CHR ''f'' then Some (CHR 0x0C)
      else if c = CHR ''n'' then Some (CHR 0x0A)
      else if c = CHR ''r'' then Some (CHR 0x0D)
      else if c = CHR ''t'' then Some (CHR 0x09)
      else None)"

fun scan_chars :: "string \<Rightarrow> string \<Rightarrow> (string \<times> nat) option option" where
  \<comment> \<open>The loop of \<open>scanstring\<close> on the text after the opening quote: the characters read
      and how many were consumed, the closing quote included; \<open>Some None\<close> when the text
      ends before the string does; \<open>None\<close> where the text is not modelled.\<close>
  "scan_chars [] acc = Some None"
| "scan_chars (c # cs) acc =
     (if c = CHR 0x22 then Some (Some (rev acc, Suc (length acc)))
      else if c = CHR 0x5C then
        (case cs of
           [] \<Rightarrow> Some None
         | e # cs' \<Rightarrow>
             (case backslash e of
                None \<Rightarrow> None
              | Some d \<Rightarrow>
                  (case scan_chars cs' (d # acc) of
                     Some (Some (str, n)) \<Rightarrow> Some (Some (str, Suc n))
                   | r \<Rightarrow> r)))
      else if (of_char c :: nat) < 32 then None
      else scan_chars cs (c # acc))"

definition scanstring :: "string \<Rightarrow> nat \<Rightarrow> string scan" where
  \<comment> \<open>\<open>scanstring(s, end)\<close>, \<open>end\<close> being the index after the opening quote.\<close>
  "scanstring s end =
     (case scan_chars (drop end s) [] of
        None \<Rightarrow> Unmodelled
      | Some None \<Rightarrow> Raise ''Unterminated string starting at'' (end - 1)
      | Some (Some (str, n)) \<Rightarrow> Scanned str (end + n))"

fun dict_set :: "(string \<times> json) list \<Rightarrow> string \<Rightarrow> json \<Rightarrow> (string \<times> json) list" where
  \<comment> \<open>\<open>d[k] = v\<close> on a \<open>dict\<close>, which keeps the order in which its keys were first set.\<close>
  "dict_set [] k v = [(k, v)]"
| "dict_set ((k', v') # d) k v = (if k' = k then (k, v) # d else (k', v') # dict_set d k v)"

definition expecting_comma :: string where
  \<comment> \<open>The message \<open>Expecting ',' delimiter\<close>.\<close>
  "expecting_comma = ''Expecting '' @ [CHR 0x27, CHR '','', CHR 0x27] @ '' delimiter''"

definition expecting_colon :: string where
  \<comment> \<open>The message \<open>Expecting ':' delimiter\<close>.\<close>
  "expecting_colon = ''Expecting '' @ [CHR 0x27, CHR '':'', CHR 0x27] @ '' delimiter''"

fun scan_once :: "nat \<Rightarrow> string \<Rightarrow> nat \<Rightarrow> json scan"
  and parse_array :: "nat \<Rightarrow> string \<Rightarrow> nat \<Rightarrow> json list \<Rightarrow> json scan"
  and parse_object :: "nat \<Rightarrow> string \<Rightarrow> nat \<Rightarrow> (string \<times> json) list \<Rightarrow> json scan" where
  \<comment> \<open>\<open>scan_once(s, idx)\<close>; the loops of \<open>JSONArray\<close> and \<open>JSONObject\<close>, entered with \<open>end\<close> at
      the next value and at the character after the quote that opens the next key. The
      first argument bounds the number of calls; \<open>Unmodelled\<close> when it is used up. A
      \<open>StopIteration\<close> is raised by every caller as "Expecting value".\<close>
  "scan_once 0 s idx = Unmodelled"
| "scan_once (Suc fuel) s idx =
     (case char_at s idx of
        None \<Rightarrow> Raise ''Expecting value'' idx
      | Some nextchar \<Rightarrow>
          if nextchar = CHR 0x22 then
            (case scanstring s (idx + 1) of
               Scanned str end \<Rightarrow> Scanned (JString str) end
             | Raise m p \<Rightarrow> Raise m p
             | Unmodelled \<Rightarrow> Unmodelled)
          else if nextchar = CHR ''{'' then
            (let end = skip_ws s (idx + 1)
             in if char_at s end = Some (CHR ''}'') then Scanned (JObject []) (end + 1)
                else if char_at s end \<noteq> Some (CHR 0x22)
                then Raise ''Expecting property name enclosed in double quotes'' end
                else parse_object fuel s (end + 1) [])
          else if nextchar = CHR ''['' then
            (let end = skip_ws s (idx + 1)
             in if char_at s end = Some (CHR '']'') then Scanned (JArray []) (end + 1)
                else parse_array fuel s end [])
          else if nextchar = CHR ''n'' \<and> slice s idx (idx + 4) = ''null''
          then Scanned JNull (idx + 4)
          else if nextchar = CHR ''t'' \<and> slice s idx (idx + 4) = ''true''
          then Scanned (JBool True) (idx + 4)
          else if nextchar = CHR ''f'' \<and> slice s idx (idx + 5) = ''false''
          then Scanned (JBool False) (idx + 5)
          else
            (case match_number s idx of
               Some (v, end) \<Rightarrow> if 4300 < end - idx then Unmodelled else Scanned v end
             | None \<Rightarrow>
                 if nextchar = CHR ''N'' \<and> slice s idx (idx + 3) = ''NaN''
                 then Scanned (JFloat ''NaN'') (idx + 3)
                 else if nextchar = CHR ''I'' \<and> slice s idx (idx + 8) = ''Infinity''
                 then Scanned (JFloat ''Infinity'') (idx + 8)
                 else if nextchar = CHR ''-'' \<and> slice s idx (idx + 9) = ''-Infinity''
                 then Scanned (JFloat ''-Infinity'') (idx + 9)
                 else Raise ''Expecting value'' idx))"
| "parse_array 0 s end values = Unmodelled"
| "parse_array (Suc fuel) s end values =
     (case scan_once fuel s end of
        Raise m p \<Rightarrow> Raise m p
      | Unmodelled \<Rightarrow> Unmodelled
      | Scanned v end1 \<Rightarrow>
          (let end2 = skip_ws s end1
           in if char_at s end2 = Some (CHR '']'') then Scanned (JArray (values @ [v])) (end2 + 1)
              else if char_at s end2 \<noteq> Some (CHR '','')
              then Raise expecting_comma end2
              else
                let end3 = skip_ws s (end2 + 1)
                in if char_at s end3 = Some (CHR '']'') then Unmodelled
                   else parse_array fuel s end3 (values @ [v])))"
| "parse_object 0 s end pairs = Unmodelled"
| "parse_object (Suc fuel) s end pairs =
     (case scanstring s end of
        Raise m p \<Rightarrow> Raise m p
      | Unmodelled \<Rightarrow> Unmodelled
      | Scanned key end1 \<Rightarrow>
          (let end2 = skip_ws s end1
           in if char_at s end2 \<noteq> Some (CHR '':'')
              then Raise expecting_colon end2
              else
                (case scan_once fuel s (skip_ws s (end2 + 1)) of
                   Raise m p \<Rightarrow> Raise m p
                 | Unmodelled \<Rightarrow> Unmodelled
                 | Scanned v end3 \<Rightarrow>
                     (let end4 = skip_ws s end3
                      in if char_at s end4 = Some (CHR ''}'')
                         then Scanned (JObject (dict_set pairs key v)) (end4 + 1)
                         else if char_at s end4 \<noteq> Some (CHR '','')
                         then Raise expecting_comma end4
                         else
                           let end5 = skip_ws s (end4 + 1)
                           in if char_at s end5 = Some (CHR ''}'') then Unmodelled
                              else if char_at s end5 \<noteq> Some (CHR 0x22)
                              then Raise ''Expecting property name enclosed in double quotes'' end5
                              else parse_object fuel s (end5 + 1) (dict_set pairs key v)))))"

definition errmsg :: "string \<Rightarrow> string \<Rightarrow> nat \<Rightarrow> string" where
  \<comment> \<open>\<open>str(JSONDecodeError(msg, doc, pos))\<close>: the line is one more than the line feeds
      before \<open>pos\<close>, the column counts from the last of them.\<close>
  "errmsg msg doc pos =
     (let pre = take pos doc;
          lineno = length (filter (\<lambda>c. c = CHR 0x0A) pre) + 1;
          colno = length (takeWhile (\<lambda>c. c \<noteq> CHR 0x0A) (rev pre)) + 1
      in msg @ '': line '' @ show_nat lineno @ '' column '' @ show_nat colno
           @ '' (char '' @ show_nat pos @ '')'')"

definition json_loads :: "string \<Rightarrow> (string + json) option" where
  \<comment> \<open>\<open>json.loads(s)\<close> on a \<open>str\<close>: \<open>JSONDecoder.decode\<close>, which skips white space, scans
      one value and refuses anything but white space after it. \<open>None\<close> where the text is
      not modelled.\<close>
  "json_loads s =
     (case scan_once (2 * length s + 2) s (skip_ws s 0) of
        Unmodelled \<Rightarrow> None
      | Raise msg pos \<Rightarrow> Some (Inl (errmsg msg s pos))
      | Scanned obj end \<Rightarrow>
          (let end1 = skip_ws s end
           in if end1 \<noteq> length s then Some (Inl (errmsg ''Extra data'' s end1))
              else Some (Inr obj)))"

definition loads_model :: "string \<Rightarrow> string + json" where
  \<comment> \<open>The decoder as a function; on a text that is not modelled its value is left open.\<close>
  "loads_model s = the (json_loads s)"

section \<open>Properties of \<open>read_standards_file\<close>\<close>

lemma isspace_char_lower: "isspace (char_lower c) = isspace c"
  unfolding isspace_def char_lower_def Let_def by auto

lemma lstrip_pad: "\<forall>c\<in>set ws. isspace c \<Longrightarrow> lstrip (ws @ s) = lstrip s"
  by (simp add: lstrip_def dropWhile_append2)

lemma rstrip_pad: "\<forall>c\<in>set ws. isspace c \<Longrightarrow> rstrip (s @ ws) = rstrip s"
proof -
  assume "\<forall>c\<in>set ws. isspace c"
  then have "dropWhile isspace (rev ws @ rev s) = dropWhile isspace (rev s)"
    by (intro dropWhile_append2) simp
  then show ?thesis by (simp add: rstrip_def)
qed

lemma strip_pad_right:
  assumes "\<forall>c\<in>set ws. isspace c"
  shows "strip (s @ ws) = strip s"
proof (cases "\<forall>c\<in>set s. isspace c")
  case True
  then have "lstrip (s @ ws) = []" "lstrip s = []"
    using assms by (auto simp: lstrip_def)
  then show ?thesis by (simp add: strip_def)
next
  case False
  then have "lstrip (s @ ws) = lstrip s @ ws"
    by (auto simp: lstrip_def dropWhile_append1)
  then show ?thesis using assms by (simp add: strip_def rstrip_pad)
qed

lemma strip_pad:
  assumes "\<forall>c\<in>set ws1. isspace c" and "\<forall>c\<in>set ws2. isspace c"
  shows "strip (ws1 @ s @ ws2) = strip s"
proof -
  have "strip (ws1 @ s @ ws2) = strip (s @ ws2)"
    using assms(1) by (simp add: strip_def lstrip_pad)
  then show ?thesis using assms(2) by (simp add: strip_pad_right)
qed

lemma lower_lstrip: "lower (lstrip s) = lstrip (lower s)"
  by (simp add: lower_def lstrip_def dropWhile_map comp_def isspace_char_lower)

lemma lower_rstrip: "lower (rstrip s) = rstrip (lower s)"
  by (simp add: lower_def rstrip_def dropWhile_map comp_def isspace_char_lower rev_map)

lemma lower_strip: "lower (strip s) = strip (lower s)"
  by (simp add: strip_def lower_lstrip lower_rstrip)

lemma lower_variant:
  "list_all2 (\<lambda>a b. char_lower a = char_lower b) s t \<Longrightarrow> lower s = lower t"
  by (induction rule: list_all2_induct) (auto simp: lower_def)

lemma col_rule_lower: "lower s = lower t \<Longrightarrow> col_rule s = col_rule t"
  by simp

lemma col_mapping_loop_lookup:
  "col_mapping_loop cols m c =
     (if c \<in> set cols then (case col_rule c of None \<Rightarrow> m c | Some t \<Rightarrow> Some t) else m c)"
  by (induction cols arbitrary: m) (auto split: option.splits simp del: col_rule.simps)

lemma col_mapping_lookup:
  "c \<in> set cols \<Longrightarrow> col_mapping cols c = col_rule c"
  by (simp add: col_mapping_def col_mapping_loop_lookup del: col_rule.simps split: option.splits)

lemma columns_mapped:
  "columns (mapped df) = map (\<lambda>(h, xs). (label_of h, xs)) (columns df)"
proof -
  have "(case col_mapping (labels (strip_columns df)) (strip h) of None \<Rightarrow> strip h | Some t \<Rightarrow> t)
        = label_of h" if "(h, xs) \<in> set (columns df)" for h xs
  proof -
    have "strip h \<in> set (labels (strip_columns df))"
      using that by (force simp: labels_def strip_columns_def)
    then show ?thesis
      by (simp add: col_mapping_lookup label_of_def resolve_def del: col_rule.simps)
  qed
  then show ?thesis
    by (auto simp: mapped_def rename_def strip_columns_def Let_def)
qed

lemma nrows_mapped: "nrows (mapped df) = nrows df"
  by (simp add: mapped_def rename_def strip_columns_def Let_def)

lemma canonical_rules:
  "col_rule ''ID'' = Some ''ID''" "col_rule ''Category'' = Some ''Category''"
  "col_rule ''Requirement'' = Some ''Requirement''"
  "col_rule ''Description'' = Some ''Description''"
  by code_simp+

lemma col_rule_range: "col_rule c = Some t \<Longrightarrow> t \<in> set canonical"
  by (auto simp: canonical_def Let_def split: if_splits)

lemma label_of_canonical:
  assumes "l \<in> set canonical"
  shows "label_of h = l \<longleftrightarrow> resolve h = Some l"
proof (cases "resolve h")
  case None
  then have "strip h \<noteq> l"
    using assms canonical_rules by (auto simp: canonical_def resolve_def simp del: col_rule.simps)
  with None show ?thesis by (simp add: label_of_def)
next
  case (Some t)
  then show ?thesis by (simp add: label_of_def)
qed


lemma cols_named_mapped:
  assumes "l \<in> set canonical"
  shows "cols_named l (mapped df) = cols_resolved l df"
proof -
  have "filter (\<lambda>(c, xs). c = l) (map (\<lambda>(h, xs). (label_of h, xs)) cs)
        = map (\<lambda>(h, xs). (label_of h, xs)) (filter (\<lambda>(h, xs). resolve h = Some l) cs)" for cs
    using label_of_canonical [OF assms] by (induction cs) auto
  from this [of "columns df"] show ?thesis
    by (simp add: cols_named_def cols_resolved_def columns_mapped comp_def split_def)
qed


lemma labels_ensure_description:
  "set (labels (ensure_description df)) = insert ''Description'' (set (labels df))"
  by (auto simp: ensure_description_def labels_def)

lemma cols_named_ensure_description:
  "cols_named l (ensure_description df) =
     cols_named l df @
       (if l = ''Description'' \<and> ''Description'' \<notin> set (labels df)
        then [replicate (nrows df) (Str [])] else [])"
  by (auto simp: ensure_description_def cols_named_def)


lemma select_canonical_Inr:
  assumes "select canonical df = Inr out"
  shows "nrows out = nrows df"
    and "set canonical \<subseteq> set (labels df)"
    and "l \<in> set canonical \<Longrightarrow> cols_named l out = cols_named l df"
    and "length (columns out) =
           length (cols_named ''ID'' df) + length (cols_named ''Category'' df)
           + length (cols_named ''Requirement'' df) + length (cols_named ''Description'' df)"
proof -
  have nomiss: "filter (\<lambda>k. k \<notin> set (labels df)) canonical = []"
    and out: "out = df\<lparr>columns := concat (map (\<lambda>k. filter (\<lambda>(c, xs). c = k) (columns df)) canonical)\<rparr>"
    using assms by (auto simp: select_def Let_def split: if_splits)
  show "nrows out = nrows df" by (simp add: out)
  show "set canonical \<subseteq> set (labels df)"
    using nomiss by (auto simp: filter_empty_conv)
  show "cols_named l out = cols_named l df" if "l \<in> set canonical"
    using that by (auto simp: out cols_named_def canonical_def split_def intro!: filter_False arg_cong [where f = "map snd"])
  show "length (columns out) =
           length (cols_named ''ID'' df) + length (cols_named ''Category'' df)
           + length (cols_named ''Requirement'' df) + length (cols_named ''Description'' df)"
    by (simp add: out cols_named_def canonical_def)
qed

lemma select_canonical_Inl:
  assumes "\<not> set canonical \<subseteq> set (labels df)"
  shows "select canonical df = Inl (SchemaError (filter (\<lambda>k. k \<notin> set (labels df)) canonical))"
    and "filter (\<lambda>k. k \<notin> set (labels df)) canonical \<noteq> []"
  using assms by (auto simp: select_def Let_def filter_empty_conv)


lemma mem_labels_cols_named: "l \<in> set (labels df) \<longleftrightarrow> cols_named l df \<noteq> []"
  by (force simp: labels_def cols_named_def filter_empty_conv)

lemma missing_required:
  "filter (\<lambda>k. k \<notin> set (labels (ensure_description d))) canonical
   = filter (\<lambda>k. k \<notin> set (labels d)) [''ID'', ''Category'', ''Requirement'']"
  by (simp add: labels_ensure_description canonical_def)

lemma normalize_Inl:
  assumes "''ID'' \<notin> set (labels (mapped df)) \<or> ''Category'' \<notin> set (labels (mapped df))
           \<or> ''Requirement'' \<notin> set (labels (mapped df))"
  shows "normalize_table df = Inl (SchemaError (filter (\<lambda>k. k \<notin> set (labels (mapped df)))
                                 [''ID'', ''Category'', ''Requirement'']))"
proof -
  have "\<not> set canonical \<subseteq> set (labels (ensure_description (mapped df)))"
    using assms by (auto simp: labels_ensure_description canonical_def)
  from select_canonical_Inl(1) [OF this] show ?thesis
    by (simp add: normalize_table_def missing_required)
qed

text \<open>
  Claim C1. When, after the headers are stripped and renamed, one of the labels \<open>ID\<close>,
  \<open>Category\<close>, \<open>Requirement\<close> is borne by no column, \<open>read_standards_file\<close> fails with the
  \<open>KeyError\<close> of the selection on line 61 (\<open>SchemaError\<close>), which lists exactly the absent
  labels; the result is an error, so no table, partial or not, is returned.
\<close>

theorem missing_required_column_fails:
  assumes "read_table read_csv read_excel file = Inr df"
    and "''ID'' \<notin> set (labels (mapped df)) \<or> ''Category'' \<notin> set (labels (mapped df))
           \<or> ''Requirement'' \<notin> set (labels (mapped df))"
  shows "read_standards_file read_csv read_excel file =
           Inl (SchemaError (filter (\<lambda>k. k \<notin> set (labels (mapped df)))
                                 [''ID'', ''Category'', ''Requirement'']))
         \<and> filter (\<lambda>k. k \<notin> set (labels (mapped df))) [''ID'', ''Category'', ''Requirement''] \<noteq> []"
  using assms(2) normalize_Inl [OF assms(2)]
  by (auto simp: read_standards_file_def assms(1) filter_empty_conv)

theorem missing_required_column_fails_witness:
  "read_table (\<lambda>_. Inr \<lparr>nrows = 1, columns = [(''Req #'', [Str ''Use MFA''])]\<rparr>) (\<lambda>_. Inl ''unused'')
       \<lparr>name = ''standards.csv'', payload = ()\<rparr>
     = Inr \<lparr>nrows = 1, columns = [(''Req #'', [Str ''Use MFA''])]\<rparr>
   \<and> ''ID'' \<notin> set (labels (mapped \<lparr>nrows = 1, columns = [(''Req #'', [Str ''Use MFA''])]\<rparr>))
   \<and> read_standards_file (\<lambda>_. Inr \<lparr>nrows = 1, columns = [(''Req #'', [Str ''Use MFA''])]\<rparr>)
        (\<lambda>_. Inl ''unused'') \<lparr>name = ''standards.csv'', payload = ()\<rparr>
     = Inl (SchemaError [''ID'', ''Category'', ''Requirement''])"
proof -
  let ?df = "\<lparr>nrows = 1, columns = [(''Req #'', [Str ''Use MFA''])]\<rparr>"
  let ?file = "\<lparr>name = ''standards.csv'', payload = ()\<rparr>"
  have t: "read_table (\<lambda>_. Inr ?df) (\<lambda>_. Inl ''unused'') ?file = Inr ?df"
    by code_simp
  have l: "labels (mapped ?df) = [''Req #'']"
    by code_simp
  have a: "''ID'' \<notin> set (labels (mapped ?df)) \<or> ''Category'' \<notin> set (labels (mapped ?df))
           \<or> ''Requirement'' \<notin> set (labels (mapped ?df))"
    unfolding l by simp
  have i: "''ID'' \<notin> set (labels (mapped ?df))"
    unfolding l by simp
  show ?thesis
    using missing_required_column_fails [OF t a] t i unfolding l by simp
qed

text \<open>
  Claim C7. A file whose name ends in none of \<open>.csv\<close>, \<open>.xlsx\<close>, \<open>.xls\<close> takes the \<open>else\<close>
  branch of lines 33--35: the unsupported-format error is the result, whatever the readers
  would do, and no table is returned.
\<close>

theorem unsupported_extension_fails:
  assumes "\<not> endswith ''.csv'' (name file)"
    and "\<not> endswith ''.xlsx'' (name file)"
    and "\<not> endswith ''.xls'' (name file)"
  shows "read_standards_file read_csv read_excel file = Inl UnsupportedFormatError"
  using assms by (simp add: read_standards_file_def read_table_def)

theorem unsupported_extension_fails_witness:
  "\<not> endswith ''.csv'' (name \<lparr>name = ''standards.txt'', payload = ()\<rparr>)
   \<and> \<not> endswith ''.xlsx'' (name \<lparr>name = ''standards.txt'', payload = ()\<rparr>)
   \<and> \<not> endswith ''.xls'' (name \<lparr>name = ''standards.txt'', payload = ()\<rparr>)
   \<and> read_standards_file (\<lambda>_. Inr \<lparr>nrows = 0, columns = []\<rparr>) (\<lambda>_. Inr \<lparr>nrows = 0, columns = []\<rparr>)
        \<lparr>name = ''standards.txt'', payload = ()\<rparr> = Inl UnsupportedFormatError"
proof -
  let ?file = "\<lparr>name = ''standards.txt'', payload = ()\<rparr>"
  have a: "\<not> endswith ''.csv'' (name ?file)" by code_simp
  have b: "\<not> endswith ''.xlsx'' (name ?file)" by code_simp
  have c: "\<not> endswith ''.xls'' (name ?file)" by code_simp
  show ?thesis using unsupported_extension_fails [OF a b c] a b c by simp
qed

text \<open>
  Claim C4. A header whose stripped, lower-cased form contains \<open>standard\<close> takes the first
  branch of the chain and resolves to \<open>ID\<close>: the second test for \<open>standard\<close>, in the
  \<open>Requirement\<close> branch, is never reached. The header \<open>Standard Requirement\<close> resolves to
  \<open>ID\<close>.
\<close>

theorem standard_header_maps_to_id:
  "(str_in ''standard'' (lower (strip h)) \<longrightarrow> resolve h = Some ''ID'')
   \<and> resolve ''Standard Requirement'' = Some ''ID''"
proof
  show "str_in ''standard'' (lower (strip h)) \<longrightarrow> resolve h = Some ''ID''"
    by (simp add: resolve_def)
  show "resolve ''Standard Requirement'' = Some ''ID''"
    by code_simp
qed

theorem standard_header_maps_to_id_witness:
  "str_in ''standard'' (lower (strip ''Standard Requirement''))
   \<and> resolve ''Standard Requirement'' = Some ''ID''"
proof -
  have "str_in ''standard'' (lower (strip ''Standard Requirement''))" by code_simp
  then show ?thesis using standard_header_maps_to_id [of "''Standard Requirement''"] by simp
qed

lemma resolve_variant:
  assumes "\<forall>c\<in>set ws1. isspace c" and "\<forall>c\<in>set ws2. isspace c" and "casing_variant h' h"
  shows "resolve (ws1 @ h' @ ws2) = resolve h"
proof -
  have "lower (strip (ws1 @ h' @ ws2)) = strip (lower h')"
    using assms(1,2) by (simp add: strip_pad lower_strip)
  also have "\<dots> = lower (strip h)"
    using assms(3) by (simp add: casing_variant_def lower_variant lower_strip)
  finally show ?thesis
    unfolding resolve_def by (rule col_rule_lower)
qed

text \<open>
  Claim C8. Resolution of a header does not change when whitespace is put before and after
  it, nor when the case of its letters changes: for whitespace \<open>ws1\<close>, \<open>ws2\<close> and a casing
  variant \<open>h'\<close> of \<open>h\<close>, the header \<open>ws1 @ h' @ ws2\<close> resolves to what \<open>h\<close> resolves to. The
  headers \<open>" ID "\<close>, \<open>"id"\<close> and \<open>"Standard ID"\<close> all resolve to \<open>ID\<close>.
\<close>

theorem header_matching_padding_case_invariant:
  assumes "\<forall>c\<in>set ws1. isspace c" and "\<forall>c\<in>set ws2. isspace c" and "casing_variant h' h"
  shows "resolve (ws1 @ h' @ ws2) = resolve h
         \<and> resolve '' ID '' = Some ''ID'' \<and> resolve ''id'' = Some ''ID''
         \<and> resolve ''Standard ID'' = Some ''ID''"
proof -
  have "resolve '' ID '' = Some ''ID''" "resolve ''id'' = Some ''ID''"
    "resolve ''Standard ID'' = Some ''ID''"
    by code_simp+
  then show ?thesis using resolve_variant [OF assms] by simp
qed

theorem header_matching_padding_case_invariant_witness:
  "isspace (CHR '' '') \<and> casing_variant ''ID'' ''id''
   \<and> resolve ('' '' @ ''ID'' @ '' '') = resolve ''id'' \<and> resolve ''id'' = Some ''ID''"
proof -
  have s: "isspace (CHR '' '')" by code_simp
  then have a: "\<forall>c\<in>set '' ''. isspace c" by simp
  have b: "casing_variant ''ID'' ''id''" by code_simp
  show ?thesis using header_matching_padding_case_invariant [OF a a b] s b by simp
qed

lemma cols_named_normalize:
  assumes "normalize_table df = Inr out" and "l \<in> set canonical"
  shows "cols_named l out =
           cols_resolved l df @
             (if l = ''Description'' \<and> cols_resolved ''Description'' df = []
              then [replicate (nrows df) (Str '''')] else [])"
proof -
  have "cols_named l out = cols_named l (ensure_description (mapped df))"
    using select_canonical_Inr(3) [OF assms(1) [unfolded normalize_table_def] assms(2)] .
  moreover have "''Description'' \<notin> set (labels (mapped df)) \<longleftrightarrow> cols_resolved ''Description'' df = []"
    by (simp add: mem_labels_cols_named cols_named_mapped canonical_def)
  ultimately show ?thesis
    by (simp add: cols_named_ensure_description cols_named_mapped assms(2) nrows_mapped)
qed








lemma filter_two:
  assumes "i < j" and "j < length xs" and "P (xs ! i)" and "P (xs ! j)"
  shows "2 \<le> length (filter P xs)"
proof -
  have "xs = take j xs @ xs ! j # drop (Suc j) xs"
    using assms(2) by (rule id_take_nth_drop)
  then have "length (filter P xs) = length (filter P (take j xs)) + length (filter P (xs ! j # drop (Suc j) xs))"
    by (metis filter_append length_append)
  moreover have "xs ! i \<in> set (take j xs)"
    using assms(1,2) by (metis in_set_conv_nth length_take min.absorb2 less_imp_le nth_take)
  then have "filter P (take j xs) \<noteq> []"
    using assms(3) by (auto simp: filter_empty_conv)
  then have "1 \<le> length (filter P (take j xs))"
    by (cases "filter P (take j xs)") auto
  ultimately show ?thesis using assms(4) by simp
qed

lemma length_columns_normalize:
  assumes "normalize_table df = Inr out"
  shows "length (columns out) =
           length (cols_named ''ID'' out) + length (cols_named ''Category'' out)
           + length (cols_named ''Requirement'' out) + length (cols_named ''Description'' out)"
    and "cols_named ''ID'' out \<noteq> []" and "cols_named ''Category'' out \<noteq> []"
    and "cols_named ''Requirement'' out \<noteq> []" and "cols_named ''Description'' out \<noteq> []"
proof -
  note s = select_canonical_Inr [OF assms [unfolded normalize_table_def]]
  show "length (columns out) =
           length (cols_named ''ID'' out) + length (cols_named ''Category'' out)
           + length (cols_named ''Requirement'' out) + length (cols_named ''Description'' out)"
    using s(4) s(3) by (simp add: canonical_def)
  show "cols_named ''ID'' out \<noteq> []" "cols_named ''Category'' out \<noteq> []"
    "cols_named ''Requirement'' out \<noteq> []" "cols_named ''Description'' out \<noteq> []"
    using s(2) s(3) by (simp_all add: canonical_def mem_labels_cols_named)
qed

text \<open>
  Two headers that satisfy the same test need not be renamed alike, and two headers renamed
  alike need not reach the output. In the first table \<open>Category ID\<close> and \<open>Category\<close> both
  satisfy the test for \<open>Category\<close>; the first is renamed \<open>ID\<close>, the second \<open>Category\<close>, and the
  table returned has exactly the four canonical columns. In the second table both headers
  contain \<open>standard\<close> and both columns are renamed \<open>ID\<close>, but the selection of line 61 finds
  neither \<open>Category\<close> nor \<open>Requirement\<close> and nothing is returned.
\<close>

theorem shared_test_distinct_targets_counterexample:
  "matches_category ''Category ID'' \<and> matches_category ''Category''
   \<and> normalize_table \<lparr>nrows = 1, columns = [(''Category ID'', [Str ''K7'']), (''Category'', [Str ''Security'']),
                                             (''Requirement'', [Str ''Use MFA''])]\<rparr>
     = Inr \<lparr>nrows = 1, columns = [(''ID'', [Str ''K7'']), (''Category'', [Str ''Security'']),
                                   (''Requirement'', [Str ''Use MFA'']), (''Description'', [Str ''''])]\<rparr>
   \<and> matches_id ''Standard'' \<and> matches_id ''Standard ID''
   \<and> labels (mapped \<lparr>nrows = 1, columns = [(''Standard'', [Str ''S1'']), (''Standard ID'', [Str ''A1''])]\<rparr>)
     = [''ID'', ''ID'']
   \<and> normalize_table \<lparr>nrows = 1, columns = [(''Standard'', [Str ''S1'']), (''Standard ID'', [Str ''A1''])]\<rparr>
     = Inl (SchemaError [''Category'', ''Requirement''])"
  by code_simp

text \<open>
  Claim C10, amended. When the headers of two different columns resolve (first match wins)
  to the same canonical name \<open>c\<close>, both columns are renamed \<open>c\<close> with their cells untouched:
  nothing resolves the conflict. Whenever the selection of line 61 succeeds, its result
  holds every source column that resolved to \<open>c\<close>, at least two of them, so the table
  returned has more than four columns.
\<close>

theorem shared_target_duplicates_columns:
  assumes "i < j" and "j < length (columns df)"
    and "resolve (fst (columns df ! i)) = Some c"
    and "resolve (fst (columns df ! j)) = Some c"
  shows "columns (mapped df) ! i = (c, snd (columns df ! i))
         \<and> columns (mapped df) ! j = (c, snd (columns df ! j))
         \<and> (\<forall>out. normalize_table df = Inr out \<longrightarrow>
               cols_named c out = cols_resolved c df
               \<and> 2 \<le> length (cols_named c out)
               \<and> 4 < length (columns out))"
proof -
  have c: "c \<in> set canonical"
    using assms(3) col_rule_range unfolding resolve_def by blast
  have lab: "label_of (fst (columns df ! k)) = c" if "resolve (fst (columns df ! k)) = Some c" for k
    using that by (simp add: label_of_def)
  have m: "columns (mapped df) ! k = (c, snd (columns df ! k))"
    if "k < length (columns df)" "resolve (fst (columns df ! k)) = Some c" for k
    using that lab by (simp add: columns_mapped split_def)
  have two: "2 \<le> length (cols_resolved c df)"
    unfolding cols_resolved_def length_map
    using assms by (intro filter_two [of i j]) (simp_all add: split_def)
  have out: "cols_named c out = cols_resolved c df \<and> 2 \<le> length (cols_named c out)
             \<and> 4 < length (columns out)" if n: "normalize_table df = Inr out" for out
  proof -
    have "cols_resolved c df \<noteq> []" using two by auto
    then have e: "cols_named c out = cols_resolved c df"
      using cols_named_normalize [OF n c] by auto
    note l = length_columns_normalize [OF n]
    have "1 \<le> length (cols_named ''ID'' out)" "1 \<le> length (cols_named ''Category'' out)"
      "1 \<le> length (cols_named ''Requirement'' out)" "1 \<le> length (cols_named ''Description'' out)"
      using l(2-5) by (simp_all add: Suc_le_eq)
    moreover have "2 \<le> length (cols_named c out)" using two e by simp
    ultimately have "4 < length (columns out)"
      using c unfolding l(1) canonical_def by auto
    with e two show ?thesis by simp
  qed
  have "columns (mapped df) ! i = (c, snd (columns df ! i))"
    "columns (mapped df) ! j = (c, snd (columns df ! j))"
    using m [of i] m [of j] assms by simp_all
  then show ?thesis
    using out by blast
qed

theorem shared_target_duplicates_columns_witness:
  "(0::nat) < 1
   \<and> 1 < length (columns \<lparr>nrows = 1, columns = [(''Standard'', [Str ''S1'']), (''Standard ID'', [Str ''A1'']),
                                   (''Category'', [Str ''Security'']), (''Requirement'', [Str ''Use MFA''])]\<rparr>)
   \<and> resolve ''Standard'' = Some ''ID'' \<and> resolve ''Standard ID'' = Some ''ID''
   \<and> normalize_table \<lparr>nrows = 1, columns = [(''Standard'', [Str ''S1'']), (''Standard ID'', [Str ''A1'']),
                                   (''Category'', [Str ''Security'']), (''Requirement'', [Str ''Use MFA''])]\<rparr>
     = Inr \<lparr>nrows = 1, columns = [(''ID'', [Str ''S1'']), (''ID'', [Str ''A1'']),
                                   (''Category'', [Str ''Security'']), (''Requirement'', [Str ''Use MFA'']),
                                   (''Description'', [Str ''''])]\<rparr>
   \<and> cols_named ''ID'' \<lparr>nrows = 1, columns = [(''ID'', [Str ''S1'']), (''ID'', [Str ''A1'']),
                                   (''Category'', [Str ''Security'']), (''Requirement'', [Str ''Use MFA'']),
                                   (''Description'', [Str ''''])]\<rparr> = [[Str ''S1''], [Str ''A1'']]"
proof -
  let ?df = "\<lparr>nrows = 1, columns = [(''Standard'', [Str ''S1'']), (''Standard ID'', [Str ''A1'']),
                                   (''Category'', [Str ''Security'']), (''Requirement'', [Str ''Use MFA''])]\<rparr>"
  let ?out = "\<lparr>nrows = 1, columns = [(''ID'', [Str ''S1'']), (''ID'', [Str ''A1'']),
                                   (''Category'', [Str ''Security'']), (''Requirement'', [Str ''Use MFA'']),
                                   (''Description'', [Str ''''])]\<rparr>"
  have a: "(0::nat) < 1" by simp
  have b: "1 < length (columns ?df)" by simp
  have c: "resolve (fst (columns ?df ! 0)) = Some ''ID''" by code_simp
  have d: "resolve (fst (columns ?df ! 1)) = Some ''ID''" by code_simp
  have n: "normalize_table ?df = Inr ?out" by code_simp
  have r: "cols_resolved ''ID'' ?df = [[Str ''S1''], [Str ''A1'']]" by code_simp
  have "cols_named ''ID'' ?out = cols_resolved ''ID'' ?df"
    using shared_target_duplicates_columns [OF a b c d] n by blast
  then show ?thesis using b c d n r by simp
qed

section \<open>Properties of \<open>analyze_compliance\<close>\<close>

lemma standards_loop_acc:
  "standards_loop rows acc =
     acc @ concat (map (\<lambda>r. NL @ cell_str (ID r) @ '' - '' @ cell_str (Category r) @ '': ''
                              @ cell_str (Requirement r) @ NL
                              @ (if cell_bool (Description r)
                                 then ''Description: '' @ cell_str (Description r) @ NL else [])) rows)"
  by (induction rows arbitrary: acc) (simp_all add: Let_def)

lemma standards_text_blocks:
  "standards_text rows =
     concat (map (\<lambda>r. NL @ cell_str (ID r) @ '' - '' @ cell_str (Category r) @ '': ''
                        @ cell_str (Requirement r) @ NL
                        @ (if cell_bool (Description r)
                           then ''Description: '' @ cell_str (Description r) @ NL else [])) rows)"
  by (simp add: standards_text_def standards_loop_acc)

text \<open>
  Claim C6. The loop tests the truth value of the Description cell, not whether the
  description is empty. For the record \<open>A1\<close> whose Description cell is blank, which the readers
  deliver as the float \<open>nan\<close>, the block has the line \<open>Description: nan\<close>. For the same
  record with the number 0 as its description, the block has no Description line. With the
  empty text, which is what a table without a Description column is filled with, the block
  has no Description line either.
\<close>

theorem blank_description_renders_nan:
  "standards_text [\<lparr>ID = Str ''A1'', Category = Str ''Security'', Requirement = Str ''Use MFA'',
                    Description = NaN\<rparr>]
     = NL @ ''A1 - Security: Use MFA'' @ NL @ ''Description: nan'' @ NL
   \<and> standards_text [\<lparr>ID = Str ''A1'', Category = Str ''Security'', Requirement = Str ''Use MFA'',
                      Description = Num 0\<rparr>]
     = NL @ ''A1 - Security: Use MFA'' @ NL
   \<and> standards_text [\<lparr>ID = Str ''A1'', Category = Str ''Security'', Requirement = Str ''Use MFA'',
                      Description = Str ''''\<rparr>]
     = NL @ ''A1 - Security: Use MFA'' @ NL"
  by (simp add: standards_text_def)

lemma lstrip_id: "s \<noteq> [] \<Longrightarrow> \<not> isspace (hd s) \<Longrightarrow> lstrip s = s"
  by (cases s) (simp_all add: lstrip_def)

lemma rstrip_id: "s \<noteq> [] \<Longrightarrow> \<not> isspace (last s) \<Longrightarrow> rstrip s = s"
  by (cases "rev s") (simp_all add: rstrip_def last_rev [symmetric] del: last_rev)

lemma strip_id: "s \<noteq> [] \<Longrightarrow> \<not> isspace (hd s) \<Longrightarrow> \<not> isspace (last s) \<Longrightarrow> strip s = s"
  by (simp add: strip_def lstrip_id rstrip_id)

lemma rstrip_take: "rstrip s = take (length s - length (takeWhile isspace (rev s))) s"
  by (simp add: rstrip_def dropWhile_eq_drop rev_drop)

lemma strip_ends:
  assumes "strip s \<noteq> []"
  shows "\<not> isspace (hd (strip s))" and "\<not> isspace (last (strip s))"
proof -
  let ?l = "lstrip s"
  have ne: "?l \<noteq> []" using assms by (auto simp: strip_def rstrip_def)
  have "dropWhile isspace (rev ?l) \<noteq> []"
    using assms by (simp add: strip_def rstrip_def)
  then have "\<not> isspace (hd (dropWhile isspace (rev ?l)))"
    by (rule hd_dropWhile)
  then show "\<not> isspace (last (strip s))"
    using assms by (simp add: strip_def rstrip_def last_rev)
  have "strip s = take (length ?l - length (takeWhile isspace (rev ?l))) ?l"
    by (simp add: strip_def rstrip_take)
  then have "hd (strip s) = hd ?l"
    using assms by (metis hd_take take_eq_Nil gr0I)
  moreover have "\<not> isspace (hd ?l)"
    using ne unfolding lstrip_def by (rule hd_dropWhile)
  ultimately show "\<not> isspace (hd (strip s))" by simp
qed

lemma strip_idem: "strip (strip s) = strip s"
proof (cases "strip s = []")
  case True
  have "strip [] = []" by (simp add: strip_def lstrip_def rstrip_def)
  with True show ?thesis by simp
next
  case False
  then show ?thesis by (simp add: strip_id strip_ends)
qed

lemma fence_chars: "\<not> isspace (CHR ''`'')" "\<not> isspace (CHR ''['')" "\<not> isspace (CHR '']'')"
  by (simp_all add: isspace_def)

lemma isspace_NL: "\<forall>c\<in>set NL. isspace c"
  by (simp add: NL_def isspace_def)

lemma clean_response_fenced: "clean_response (fenced j) = strip j"
proof -
  have 1: "strip (fenced j) = fenced j"
    by (rule strip_id) (simp_all add: fenced_def fence_chars)
  have 2: "startswith ''```json'' (fenced j)"
    by (simp add: startswith_def fenced_def)
  have 3: "drop 7 (fenced j) = NL @ j @ NL @ ''```''"
    by (simp add: fenced_def)
  have 4: "\<not> startswith ''```'' (NL @ j @ NL @ ''```'')"
    by (simp add: startswith_def NL_def)
  have 5: "endswith ''```'' (NL @ j @ NL @ ''```'')"
    unfolding endswith_def by (metis append.assoc suffixI)
  have 6: "take (length (NL @ j @ NL @ ''```'') - 3) (NL @ j @ NL @ ''```'') = NL @ j @ NL"
    by simp
  have 7: "strip (NL @ j @ NL) = strip j"
    using isspace_NL by (rule strip_pad) (rule isspace_NL)
  show ?thesis
    unfolding clean_response_def Let_def 1 using 2 3 4 5 6 7 by simp
qed

lemma prefix_fence_json: "startswith ''```json'' t \<Longrightarrow> startswith ''```'' t"
  unfolding startswith_def by (auto simp: prefix_def)

lemma clean_response_plain:
  assumes "\<not> startswith ''```'' (strip r)" and "\<not> endswith ''```'' (strip r)"
  shows "clean_response r = strip r"
  using assms prefix_fence_json [of "strip r"]
  by (auto simp: clean_response_def Let_def strip_idem)

lemma no_fence_ends:
  assumes "\<not> str_in ''```'' r"
  shows "\<not> startswith ''```'' r" and "\<not> endswith ''```'' r"
  using assms by (auto simp: str_in_def startswith_def endswith_def)

lemma strip_sublist: "sublist (strip r) r"
proof -
  have "suffix (lstrip r) r"
    unfolding lstrip_def by (rule suffix_dropWhile)
  moreover have "prefix (rstrip (lstrip r)) (lstrip r)"
    unfolding rstrip_take by (rule take_is_prefix)
  ultimately show ?thesis
    unfolding strip_def by (meson prefix_imp_sublist suffix_imp_sublist sublist_order.order_trans)
qed

lemma no_fence_strip: "\<not> str_in ''```'' r \<Longrightarrow> \<not> str_in ''```'' (strip r)"
  unfolding str_in_def using strip_sublist sublist_order.order_trans by blast

lemma clean_response_opening_only:
  assumes "strip r = marker @ rest" and "\<not> str_in ''```'' rest"
    and "marker = ''```json'' \<or> (marker = ''```'' \<and> \<not> startswith ''json'' rest)"
  shows "clean_response r = strip rest"
proof -
  note n = no_fence_ends [OF assms(2)]
  from assms(3) show ?thesis
  proof
    assume o: "marker = ''```json''"
    have "startswith ''```json'' (strip r)"
      by (simp add: assms(1) o startswith_def)
    moreover have "drop 7 (strip r) = rest"
      by (simp add: assms(1) o)
    ultimately show ?thesis
      using n by (simp add: clean_response_def Let_def)
  next
    assume o: "marker = ''```'' \<and> \<not> startswith ''json'' rest"
    have "\<not> startswith ''```json'' (strip r)"
      using o by (simp add: assms(1) startswith_def)
    moreover have "startswith ''```'' (strip r)"
      using o by (simp add: assms(1) startswith_def)
    moreover have "drop 3 (strip r) = rest"
      using o by (simp add: assms(1))
    ultimately show ?thesis
      using n by (simp add: clean_response_def Let_def)
  qed
qed

lemma clean_response_closing_only:
  assumes "startswith ''['' a" and "endswith '']'' a"
    and "\<forall>c\<in>set ws1. isspace c" and "\<forall>c\<in>set ws. isspace c" and "\<forall>c\<in>set ws2. isspace c"
  shows "clean_response (ws1 @ a @ ws @ ''```'' @ ws2) = a"
proof -
  obtain a' where a': "a = CHR ''['' # a'"
    using assms(1) by (auto simp: startswith_def prefix_def)
  obtain a'' where a'': "a = a'' @ '']''"
    using assms(2) by (auto simp: endswith_def suffix_def)
  have "a \<noteq> []" "\<not> isspace (hd a)"
    by (simp_all add: a' fence_chars)
  moreover have "\<not> isspace (last a)"
    by (simp add: a'' fence_chars)
  ultimately have sa: "strip a = a"
    by (rule strip_id)
  let ?t = "a @ ws @ ''```''"
  have "strip (ws1 @ ?t @ ws2) = strip ?t"
    using assms(3,5) by (rule strip_pad)
  moreover have "strip ?t = ?t"
    by (rule strip_id) (simp_all add: a' fence_chars)
  ultimately have 1: "strip (ws1 @ a @ ws @ ''```'' @ ws2) = ?t" by simp
  have 2: "\<not> startswith ''```json'' ?t" "\<not> startswith ''```'' ?t"
    by (simp_all add: a' startswith_def)
  have 3: "endswith ''```'' ?t"
    unfolding endswith_def by (metis append.assoc suffixI)
  have 4: "take (length ?t - 3) ?t = a @ ws" by simp
  have 5: "strip (a @ ws) = a"
    using strip_pad_right [OF assms(4), of a] sa by simp
  show ?thesis
    unfolding clean_response_def Let_def 1 using 2 3 4 5 by simp
qed

text \<open>
  The raw reply is not part of what a failed analysis reports. Both replies below are
  refused by the decoder at their first character, and both analyses end with the same
  message, in which the reply does not occur.
\<close>

theorem raw_reply_not_in_error_counterexample:
  "analyze_compliance (\<lambda>key prompt. Inr ''not json'') loads_model ''We require two-factor login.''
        [\<lparr>ID = Str ''A1'', Category = Str ''Security'', Requirement = Str ''Use MFA'', Description = Str ''''\<rparr>] ''key''
      = Inl ''Error during analysis: Expecting value: line 1 column 1 (char 0)''
   \<and> analyze_compliance (\<lambda>key prompt. Inr ''neither is this'') loads_model ''We require two-factor login.''
        [\<lparr>ID = Str ''A1'', Category = Str ''Security'', Requirement = Str ''Use MFA'', Description = Str ''''\<rparr>] ''key''
      = Inl ''Error during analysis: Expecting value: line 1 column 1 (char 0)''
   \<and> \<not> str_in ''not json'' ''Error during analysis: Expecting value: line 1 column 1 (char 0)''"
proof -
  have 1: "parse_response loads_model ''not json''
           = Inl ''Error during analysis: Expecting value: line 1 column 1 (char 0)''"
    by code_simp
  have 2: "parse_response loads_model ''neither is this''
           = Inl ''Error during analysis: Expecting value: line 1 column 1 (char 0)''"
    by code_simp
  have 3: "\<not> str_in ''not json'' ''Error during analysis: Expecting value: line 1 column 1 (char 0)''"
    by code_simp
  show ?thesis
    using 1 2 3 by (simp add: analyze_compliance_def)
qed

text \<open>
  Claim C2, amended. When the cleaned reply is not decoded, \<open>analyze_compliance\<close> reports the
  message \<open>Error during analysis: \<close> followed by the text of the decoder's exception, and
  returns no findings. The text of the exception is all of the reply that the result
  carries: the raw reply is not kept, as the two replies above show.
\<close>

theorem unparseable_reply_reports_parse_error:
  assumes "create api_key (build_prompt app_content (standards_text standards)) = Inr raw"
    and "loads (clean_response raw) = Inl e"
  shows "analyze_compliance create loads app_content standards api_key
           = Inl (''Error during analysis: '' @ e)
         \<and> parse_response loads raw = Inl (''Error during analysis: '' @ e)"
  using assms by (simp add: analyze_compliance_def parse_response_def)

theorem unparseable_reply_reports_parse_error_witness:
  "loads_model (clean_response ''not json'') = Inl ''Expecting value: line 1 column 1 (char 0)''
   \<and> analyze_compliance (\<lambda>key prompt. Inr ''not json'') loads_model ''We require two-factor login.''
        [\<lparr>ID = Str ''A1'', Category = Str ''Security'', Requirement = Str ''Use MFA'', Description = Str ''''\<rparr>] ''key''
      = Inl ''Error during analysis: Expecting value: line 1 column 1 (char 0)''"
proof -
  have l: "loads_model (clean_response ''not json'') = Inl ''Expecting value: line 1 column 1 (char 0)''"
    by code_simp
  let ?create = "\<lambda>key prompt. Inr ''not json'' :: string + string"
  let ?rows = "[\<lparr>ID = Str ''A1'', Category = Str ''Security'', Requirement = Str ''Use MFA'', Description = Str ''''\<rparr>]"
  have c: "?create ''key'' (build_prompt ''We require two-factor login.'' (standards_text ?rows))
           = Inr ''not json''"
    by simp
  show ?thesis
    using unparseable_reply_reports_parse_error [of ?create "''key''" "''We require two-factor login.''" ?rows "''not json''"
                loads_model, OF c l] l
    by simp
qed

text \<open>
  A fenced reply is not always parsed as the bare one. For \<open>j = []```\<close> the fenced reply is
  cleaned to \<open>[]```\<close>, which the decoder refuses, and the bare reply to \<open>[]\<close>, which it
  decodes.
\<close>

theorem fenced_reply_parsed_differently_counterexample:
  "parse_response loads_model (fenced ''[]```'')
     = Inl ''Error during analysis: Extra data: line 1 column 3 (char 2)''
   \<and> parse_response loads_model ''[]```'' = Inr (JArray [])"
  by code_simp

text \<open>
  Claim C3, amended. The reply that wraps \<open>j\<close> in one pair of fence markers is cleaned to
  \<open>j\<close> trimmed; so it is parsed as the bare reply \<open>j\<close> is, provided that \<open>j\<close> trimmed neither
  starts nor ends with a fence marker (otherwise the bare reply loses that marker too, as
  above). A reply with no fence marker is handed to the decoder trimmed and otherwise
  unchanged, and what the decoder returns is the result. A reply that opens with a fence
  marker and has no other has the remainder, trimmed, handed to the decoder, and fails
  with the decoder's message when the remainder is not decoded.
\<close>

theorem fence_stripping_cases:
  "(\<not> startswith ''```'' (strip j) \<and> \<not> endswith ''```'' (strip j) \<longrightarrow>
      parse_response loads (fenced j) = parse_response loads j)
   \<and> (\<not> str_in ''```'' r \<longrightarrow>
        clean_response r = strip r
        \<and> (\<forall>v. loads (strip r) = Inr v \<longrightarrow> parse_response loads r = Inr v))
   \<and> (strip r' = marker @ rest \<and> \<not> str_in ''```'' rest
        \<and> (marker = ''```json'' \<or> (marker = ''```'' \<and> \<not> startswith ''json'' rest)) \<longrightarrow>
        clean_response r' = strip rest
        \<and> (\<forall>e. loads (strip rest) = Inl e \<longrightarrow>
              parse_response loads r' = Inl (''Error during analysis: '' @ e)))"
proof (intro conjI impI)
  assume "\<not> startswith ''```'' (strip j) \<and> \<not> endswith ''```'' (strip j)"
  then have "clean_response j = strip j"
    by (simp add: clean_response_plain)
  then show "parse_response loads (fenced j) = parse_response loads j"
    by (simp add: parse_response_def clean_response_fenced)
next
  assume "\<not> str_in ''```'' r"
  then have "\<not> str_in ''```'' (strip r)" by (rule no_fence_strip)
  then show c: "clean_response r = strip r"
    by (simp add: clean_response_plain no_fence_ends)
  show "\<forall>v. loads (strip r) = Inr v \<longrightarrow> parse_response loads r = Inr v"
    by (simp add: parse_response_def c)
next
  assume a: "strip r' = marker @ rest \<and> \<not> str_in ''```'' rest
        \<and> (marker = ''```json'' \<or> (marker = ''```'' \<and> \<not> startswith ''json'' rest))"
  then show c: "clean_response r' = strip rest"
    by (blast intro: clean_response_opening_only)
  show "\<forall>e. loads (strip rest) = Inl e \<longrightarrow>
              parse_response loads r' = Inl (''Error during analysis: '' @ e)"
    by (simp add: parse_response_def c)
qed

text \<open>
  Claim C9. A reply that is the text \<open>a\<close> of a JSON array, then white space, then a closing
  fence marker, with white space around, is cleaned to \<open>a\<close>: the closing marker is removed
  though no opening marker stands before the array, and the value that the decoder
  returns for \<open>a\<close> is the result.
\<close>

theorem lone_closing_fence_stripped:
  assumes "startswith ''['' a" and "endswith '']'' a" and "loads a = Inr v"
    and "\<forall>c\<in>set ws1. isspace c" and "\<forall>c\<in>set ws. isspace c" and "\<forall>c\<in>set ws2. isspace c"
  shows "clean_response (ws1 @ a @ ws @ ''```'' @ ws2) = a
         \<and> parse_response loads (ws1 @ a @ ws @ ''```'' @ ws2) = Inr v"
  using clean_response_closing_only [OF assms(1,2,4,5,6)] assms(3)
  by (simp add: parse_response_def)

theorem fence_stripping_cases_witness:
  "\<not> startswith ''```'' (strip ''[]'') \<and> \<not> endswith ''```'' (strip ''[]'')
   \<and> parse_response loads_model (fenced ''[]'') = parse_response loads_model ''[]''
   \<and> \<not> str_in ''```'' ''[1]''
   \<and> parse_response loads_model ''[1]'' = Inr (JArray [JInt 1])
   \<and> strip (''```json'' @ NL @ ''oops'') = ''```json'' @ NL @ ''oops''
   \<and> \<not> str_in ''```'' (NL @ ''oops'')
   \<and> parse_response loads_model (''```json'' @ NL @ ''oops'')
       = Inl ''Error during analysis: Expecting value: line 1 column 1 (char 0)''"
proof -
  have h1: "\<not> startswith ''```'' (strip ''[]'') \<and> \<not> endswith ''```'' (strip ''[]'')"
    by code_simp
  have h2: "\<not> str_in ''```'' ''[1]''"
    by code_simp
  have h3a: "strip (''```json'' @ NL @ ''oops'') = ''```json'' @ NL @ ''oops''"
    by code_simp
  have h3b: "\<not> str_in ''```'' (NL @ ''oops'')"
    by code_simp
  have h4: "loads_model (strip ''[1]'') = Inr (JArray [JInt 1])"
    by code_simp
  have h5: "loads_model (strip (NL @ ''oops'')) = Inl ''Expecting value: line 1 column 1 (char 0)''"
    by code_simp
  note t = fence_stripping_cases [where j = "''[]''" and loads = loads_model and r = "''[1]''"
      and r' = "''```json'' @ NL @ ''oops''" and marker = "''```json''" and rest = "NL @ ''oops''"]
  have "parse_response loads_model (fenced ''[]'') = parse_response loads_model ''[]''"
    using t h1 by blast
  moreover have "parse_response loads_model ''[1]'' = Inr (JArray [JInt 1])"
    using t h2 h4 by blast
  moreover have "parse_response loads_model (''```json'' @ NL @ ''oops'')
       = Inl (''Error during analysis: '' @ ''Expecting value: line 1 column 1 (char 0)'')"
    using t h3a h3b h5 by blast
  ultimately show ?thesis
    using h1 h2 h3a h3b by simp
qed

theorem lone_closing_fence_stripped_witness:
  "startswith ''['' ''[]'' \<and> endswith '']'' ''[]'' \<and> loads_model ''[]'' = Inr (JArray [])
   \<and> parse_response loads_model (''[]'' @ NL @ ''```'' @ '' '') = Inr (JArray [])"
proof -
  have a: "startswith ''['' ''[]''" by code_simp
  have b: "endswith '']'' ''[]''" by code_simp
  have l: "loads_model ''[]'' = Inr (JArray [])" by code_simp
  have w1: "\<forall>c\<in>set []. isspace c" by simp
  have w2: "\<forall>c\<in>set '' ''. isspace c" by (simp add: isspace_def)
  show ?thesis
    using lone_closing_fence_stripped [where a = "''[]''" and loads = loads_model and v = "JArray []" and ?ws1.0 = "[]"
        and ws = NL and ?ws2.0 = "'' ''", OF a b l w1 isspace_NL w2] a b l
    by simp
qed

end
